theory Spec2Isabelle
  imports Complex_Main
begin

section \<open>Contrast Evaluator (color contrast utilities)\<close>

text \<open>
  JavaScript numbers are modelled as mathematical reals: \<open>Math.pow(x, 2.4)\<close> on a positive
  base is \<open>x powr 2.4\<close>, \<open>Math.max\<close>/\<open>Math.min\<close> are \<open>max\<close>/\<open>min\<close>, and
  \<open>Math.round(x)\<close> is \<open>\<lfloor>x + 1/2\<rfloor>\<close>. A thrown \<open>Error\<close> is the left summand of a sum type.
\<close>

datatype error = InvalidHexColorFormat | TypeError

text \<open>The character class \<open>[a-f\d]\<close> under the \<open>i\<close> flag.\<close>

definition isHexDigit :: "char \<Rightarrow> bool" where
  "isHexDigit c \<longleftrightarrow> c \<in> set ''0123456789abcdefABCDEF''"

text \<open>
  The regular expression \<open>/^#?([a-f\d]{2})([a-f\d]{2})([a-f\d]{2})$/i\<close>: an optional
  \<open>#\<close>, then exactly six hexadecimal digits up to the end of the input; the result holds the
  three captured groups. Since \<open>#\<close> is no hexadecimal digit, the optional prefix is taken
  whenever it is there.
\<close>

definition hexRegexExec :: "string \<Rightarrow> (string \<times> string \<times> string) option" where
  "hexRegexExec hex =
     (let body = (case hex of [] \<Rightarrow> [] | c # cs \<Rightarrow> if c = CHR ''#'' then cs else hex)
      in if length body = 6 \<and> list_all isHexDigit body
         then Some (take 2 body, take 2 (drop 2 body), drop 4 body)
         else None)"

definition hexDigitValue :: "char \<Rightarrow> nat" where
  "hexDigitValue c =
     (let n = (of_char c :: nat)
      in if 48 \<le> n \<and> n \<le> 57 then n - 48
         else if 97 \<le> n \<and> n \<le> 102 then n - 87
         else if 65 \<le> n \<and> n \<le> 70 then n - 55
         else 0)"

text \<open>\<open>parseInt(s, 16)\<close> on a captured group (hexadecimal digits only).\<close>

definition parseInt16 :: "string \<Rightarrow> nat" where
  "parseInt16 s = foldl (\<lambda>acc c. 16 * acc + hexDigitValue c) 0 s"

record rgb =
  r :: nat
  g :: nat
  b :: nat

definition hexToRgb :: "string \<Rightarrow> rgb option" where
  "hexToRgb hex =
     (case hexRegexExec hex of
        Some (g1, g2, g3) \<Rightarrow> Some \<lparr> r = parseInt16 g1, g = parseInt16 g2, b = parseInt16 g3 \<rparr>
      | None \<Rightarrow> None)"

text \<open>The body of the \<open>map\<close> callback of \<open>getLuminance\<close>.\<close>

definition linearChannel :: "real \<Rightarrow> real" where
  "linearChannel c0 =
     (let c = c0 / 255
      in if c \<le> 0.03928 then c / 12.92 else ((c + 0.055) / 1.055) powr 2.4)"

definition getLuminance :: "real \<Rightarrow> real \<Rightarrow> real \<Rightarrow> real" where
  "getLuminance rv gv bv =
     0.2126 * linearChannel rv + 0.7152 * linearChannel gv + 0.0722 * linearChannel bv"

definition getContrastRatio :: "string \<Rightarrow> string \<Rightarrow> error + real" where
  "getContrastRatio color1 color2 =
     (case (hexToRgb color1, hexToRgb color2) of
        (Some rgb1, Some rgb2) \<Rightarrow>
          (let lum1 = getLuminance (real (r rgb1)) (real (g rgb1)) (real (b rgb1));
               lum2 = getLuminance (real (r rgb2)) (real (g rgb2)) (real (b rgb2));
               brightest = max lum1 lum2;
               darkest = min lum1 lum2
           in Inr ((brightest + 0.05) / (darkest + 0.05)))
      | _ \<Rightarrow> Inl InvalidHexColorFormat)"

datatype wcagLevel = AA | AAA | Fail

record contrastResult =
  passes :: bool
  ratio :: real
  required :: real
  level :: wcagLevel

definition mathRound :: "real \<Rightarrow> int" where
  "mathRound x = \<lfloor>x + 1 / 2\<rfloor>"

definition meetsWCAGAA :: "string \<Rightarrow> string \<Rightarrow> bool \<Rightarrow> error + contrastResult" where
  "meetsWCAGAA foreground background isLargeText =
     (case getContrastRatio foreground background of
        Inl e \<Rightarrow> Inl e
      | Inr ratio0 \<Rightarrow>
          (let requiredRatio = (if isLargeText then 3 else 4.5);
               requiredRatioAAA = (if isLargeText then 4.5 else 7)
           in Inr \<lparr> passes = (ratio0 \<ge> requiredRatio),
                    ratio = real_of_int (mathRound (ratio0 * 100)) / 100,
                    required = requiredRatio,
                    level = (if ratio0 \<ge> requiredRatioAAA then AAA
                             else if ratio0 \<ge> requiredRatio then AA else Fail) \<rparr>))"

text \<open>
  A well-formed color, in the words of the specification: six hexadecimal digits, with or
  without a leading \<open>#\<close>.
\<close>

definition wellFormedColor :: "string \<Rightarrow> bool" where
  "wellFormedColor s \<longleftrightarrow>
     (length s = 6 \<and> list_all isHexDigit s) \<or>
     (length s = 7 \<and> hd s = CHR ''#'' \<and> list_all isHexDigit (tl s))"

text \<open>
  Two spellings of the same color: equal up to the leading \<open>#\<close> and the case of the
  letters.
\<close>

definition stripHash :: "string \<Rightarrow> string" where
  "stripHash s = (case s of [] \<Rightarrow> [] | c # cs \<Rightarrow> if c = CHR ''#'' then cs else s)"

definition toLowerChar :: "char \<Rightarrow> char" where
  "toLowerChar c =
     (case map_of (zip ''ABCDEFGHIJKLMNOPQRSTUVWXYZ'' ''abcdefghijklmnopqrstuvwxyz'') c of
        Some l \<Rightarrow> l
      | None \<Rightarrow> c)"

definition toLowerCase :: "string \<Rightarrow> string" where
  "toLowerCase s = map toLowerChar s"

definition sameColor :: "string \<Rightarrow> string \<Rightarrow> bool" where
  "sameColor s t \<longleftrightarrow> toLowerCase (stripHash s) = toLowerCase (stripHash t)"


section \<open>Touch-Target Auditor\<close>

text \<open>\<open>TOUCH_TARGET_SIZE.MINIMUM\<close>, in pixels.\<close>

definition TOUCH_TARGET_MINIMUM :: nat where
  "TOUCH_TARGET_MINIMUM = 44"

text \<open>
  The decimal text that a template literal gives an integer-valued number (below the
  magnitude where JavaScript switches to exponent notation).
\<close>

definition digitChar :: "nat \<Rightarrow> char" where
  "digitChar n = ''0123456789'' ! n"

function natToString :: "nat \<Rightarrow> string" where
  "natToString n =
     (if n < 10 then [digitChar n] else natToString (n div 10) @ [digitChar (n mod 10)])"
  by pat_completeness auto
termination
  by (relation "measure (\<lambda>n. n)") auto

declare natToString.simps [simp del]

definition intToString :: "int \<Rightarrow> string" where
  "intToString i = (if i < 0 then CHR ''-'' # natToString (nat (- i)) else natToString (nat i))"

text \<open>The rectangle of \<open>element.getBoundingClientRect()\<close>; an element is given by it.\<close>

record domRect =
  width :: real
  height :: real

record touchTargetValidation =
  isValid :: bool
  actualSize :: domRect
  recommendations :: "string list"

definition validateTouchTarget :: "domRect \<Rightarrow> touchTargetValidation" where
  "validateTouchTarget rect =
     (let isWidthValid = (width rect \<ge> real TOUCH_TARGET_MINIMUM);
          isHeightValid = (height rect \<ge> real TOUCH_TARGET_MINIMUM);
          recs0 = [];
          recs1 = (if \<not> isWidthValid
                   then recs0 @ [''Increase width to at least '' @ natToString TOUCH_TARGET_MINIMUM
                                 @ ''px (current: '' @ intToString (mathRound (width rect)) @ ''px)'']
                   else recs0);
          recs2 = (if \<not> isHeightValid
                   then recs1 @ [''Increase height to at least '' @ natToString TOUCH_TARGET_MINIMUM
                                 @ ''px (current: '' @ intToString (mathRound (height rect)) @ ''px)'']
                   else recs1)
      in \<lparr> isValid = (isWidthValid \<and> isHeightValid),
           actualSize = \<lparr> width = width rect, height = height rect \<rparr>,
           recommendations = recs2 \<rparr>)"

section \<open>Keyboard events\<close>

text \<open>
  The target of an event: its tag name, the \<open>type\<close> attribute (of an \<open>input\<close>; the
  handlers never read it) and whether it is content-editable.
\<close>

record htmlElement =
  tagName :: string
  typeAttr :: string
  isContentEditable :: bool

record keyboardEvent =
  key :: string
  ctrlKey :: bool
  altKey :: bool
  shiftKey :: bool
  target :: htmlElement

section \<open>Focus-Trap Controller\<close>

text \<open>
  A JavaScript reference as \<open>trapFocus\<close> meets it: \<open>undefined\<close> (an array read out of
  range), \<open>null\<close> (\<open>document.activeElement\<close> with nothing focused) or an element. Strict
  equality \<open>===\<close> is equality of these values, so \<open>null\<close> and \<open>undefined\<close> differ.
\<close>

datatype 'e jsref = Undefined | Null | Element 'e

definition arrayIndex :: "'e list \<Rightarrow> int \<Rightarrow> 'e jsref" where
  "arrayIndex xs i = (if 0 \<le> i \<and> i < int (length xs) then Element (xs ! nat i) else Undefined)"

text \<open>
  An element that the focusable selector can match: its identity, and whether it is
  disabled or hidden. The selector
  \<open>button, [href], input, select, textarea, [tabindex]:not([tabindex="-1"])\<close> leaves
  disabled and hidden controls in.
\<close>

record domElement =
  elementId :: string
  isDisabled :: bool
  isHidden :: bool

text \<open>
  \<open>el.focus()\<close>: calling a method on \<open>undefined\<close> or \<open>null\<close> throws a \<open>TypeError\<close>;
  on an element that can take the focus it makes that element the active one; on a
  disabled or hidden element it does nothing.
\<close>

definition focus :: "domElement jsref \<Rightarrow> domElement option \<Rightarrow> error + domElement option" where
  "focus el activeElement =
     (case el of
        Element e \<Rightarrow> Inr (if isDisabled e \<or> isHidden e then activeElement else Some e)
      | _ \<Rightarrow> Inl TypeError)"

text \<open>
  \<open>focusUtils.trapFocus\<close>. The container is given by \<open>focusableElements\<close>, the result of
  its \<open>querySelectorAll(focusableSelector)\<close> in document order; \<open>activeElement\<close> is
  \<open>document.activeElement\<close> (\<open>None\<close> for \<open>null\<close>). The result is the new active element
  and whether \<open>event.preventDefault()\<close> was called.
\<close>

definition trapFocus ::
  "domElement list \<Rightarrow> keyboardEvent \<Rightarrow> domElement option \<Rightarrow> error + (domElement option \<times> bool)" where
  "trapFocus focusableElements event activeElement =
     (if key event \<noteq> ''Tab'' then Inr (activeElement, False)
      else
        let firstElement = arrayIndex focusableElements 0;
            lastElement = arrayIndex focusableElements (int (length focusableElements) - 1);
            active = (case activeElement of None \<Rightarrow> Null | Some e \<Rightarrow> Element e)
        in if shiftKey event then
             (if active = firstElement
              then (case focus lastElement activeElement of
                      Inl err \<Rightarrow> Inl err | Inr a \<Rightarrow> Inr (a, True))
              else Inr (activeElement, False))
           else
             (if active = lastElement
              then (case focus firstElement activeElement of
                      Inl err \<Rightarrow> Inl err | Inr a \<Rightarrow> Inr (a, True))
              else Inr (activeElement, False)))"

section \<open>Status Announcer\<close>

text \<open>
  The hook \<open>useScreenReaderAnnouncement\<close>. Its state is the slot \<open>announcement\<close>; the
  environment holds the clock (in ms) and the due times of the pending \<open>setTimeout\<close>
  callbacks, each of which is \<open>setAnnouncement('')\<close>. \<open>slotTrace\<close> records the initial
  value of the slot and then every value written by \<open>setAnnouncement\<close>, in order. A timer
  is taken to fire exactly when it is due.
\<close>

datatype priority = Polite | Assertive

record announcer =
  now :: nat
  announcement :: string
  timers :: "nat list"
  slotTrace :: "string list"

definition initialAnnouncer :: announcer where
  "initialAnnouncer = \<lparr> now = 0, announcement = [], timers = [], slotTrace = [[]] \<rparr>"

definition setAnnouncement :: "string \<Rightarrow> announcer \<Rightarrow> announcer" where
  "setAnnouncement v s = s \<lparr> announcement := v, slotTrace := slotTrace s @ [v] \<rparr>"

definition setTimeoutClear :: "nat \<Rightarrow> announcer \<Rightarrow> announcer" where
  "setTimeoutClear delay s = s \<lparr> timers := timers s @ [now s + delay] \<rparr>"

definition clearDelay :: "priority \<Rightarrow> nat" where
  "clearDelay p = (if p = Assertive then 2000 else 1000)"

definition announce :: "string \<Rightarrow> priority \<Rightarrow> announcer \<Rightarrow> announcer" where
  "announce message p s = setTimeoutClear (clearDelay p) (setAnnouncement message s)"

text \<open>
  \<open>announceShortcut\<close> of \<open>useKeyboardShortcuts\<close>: a slot of the same kind, always cleared
  after 2000 ms.
\<close>

definition announceShortcut :: "string \<Rightarrow> announcer \<Rightarrow> announcer" where
  "announceShortcut message s = setTimeoutClear 2000 (setAnnouncement message s)"

definition clearAnnouncement :: "announcer \<Rightarrow> announcer" where
  "clearAnnouncement s = setAnnouncement [] s"

text \<open>
  \<open>d\<close> ms pass with no call from the application: every pending timer due by then fires
  and runs its callback.
\<close>

definition advance :: "nat \<Rightarrow> announcer \<Rightarrow> announcer" where
  "advance d s =
     (let t = now s + d;
          fired = filter (\<lambda>due. due \<le> t) (timers s);
          s' = fold (\<lambda>_. setAnnouncement []) fired s
      in s' \<lparr> now := t, timers := filter (\<lambda>due. t < due) (timers s) \<rparr>)"

text \<open>
  \<open>ShortcutAnnouncement\<close> renders the slot of \<open>announceShortcut\<close> in a region with
  \<open>aria-live="polite"\<close>.
\<close>

definition shortcutAnnouncementLive :: priority where
  "shortcutAnnouncementLive = Polite"

text \<open>
  The component \<open>FormAnnouncement\<close>. Its effect runs when the \<open>message\<close> property
  changes: the cleanup of the previous run cancels the timer of that run
  (\<open>clearTimeout\<close>), and a non-empty message is written to the slot with a new timer of
  3000 ms. So at most one timer is pending. The region is assertive for the type
  \<open>error\<close> and polite otherwise.
\<close>

datatype announcementType = FormError | FormSuccess | FormInfo

definition formAnnouncementLive :: "announcementType \<Rightarrow> priority" where
  "formAnnouncementLive t = (if t = FormError then Assertive else Polite)"

record formAnnouncement =
  formNow :: nat
  formSlot :: string
  formTimer :: "nat option"

definition initialFormAnnouncement :: formAnnouncement where
  "initialFormAnnouncement = \<lparr> formNow = 0, formSlot = [], formTimer = None \<rparr>"

definition formAnnouncementEffect :: "string \<Rightarrow> formAnnouncement \<Rightarrow> formAnnouncement" where
  "formAnnouncementEffect message s =
     (let s1 = s \<lparr> formTimer := None \<rparr>
      in if message \<noteq> []
         then s1 \<lparr> formSlot := message, formTimer := Some (formNow s + 3000) \<rparr>
         else s1)"

definition formAdvance :: "nat \<Rightarrow> formAnnouncement \<Rightarrow> formAnnouncement" where
  "formAdvance d s =
     (let t = formNow s + d
      in case formTimer s of
           Some due \<Rightarrow>
             if due \<le> t then s \<lparr> formNow := t, formSlot := [], formTimer := None \<rparr>
             else s \<lparr> formNow := t \<rparr>
         | None \<Rightarrow> s \<lparr> formNow := t \<rparr>)"

text \<open>The number of times the slot changes its value along a trace.\<close>

fun slotChanges :: "string list \<Rightarrow> nat" where
  "slotChanges (x # y # ys) = (if x = y then 0 else 1) + slotChanges (y # ys)"
| "slotChanges _ = 0"

section \<open>Keyboard-Shortcut Dispatcher\<close>

record 'a keyboardShortcut =
  key :: string
  description :: string
  action :: 'a
  ctrlKey :: "bool option"
  altKey :: "bool option"
  shiftKey :: "bool option"

text \<open>\<open>!!x\<close> on an optional boolean field: an absent field is \<open>undefined\<close>, which is falsy.\<close>

definition truthy :: "bool option \<Rightarrow> bool" where
  "truthy x = (case x of None \<Rightarrow> False | Some v \<Rightarrow> v)"

text \<open>The predicate given to \<open>shortcuts.find\<close>.\<close>

definition shortcutMatches :: "'a keyboardShortcut \<Rightarrow> keyboardEvent \<Rightarrow> bool" where
  "shortcutMatches shortcut event \<longleftrightarrow>
     toLowerCase (keyboardShortcut.key shortcut) = toLowerCase (keyboardEvent.key event) \<and>
     truthy (keyboardShortcut.ctrlKey shortcut) = keyboardEvent.ctrlKey event \<and>
     truthy (keyboardShortcut.altKey shortcut) = keyboardEvent.altKey event \<and>
     truthy (keyboardShortcut.shiftKey shortcut) = keyboardEvent.shiftKey event"

text \<open>
  What one run of the handler did: whether \<open>event.preventDefault()\<close> was called, and the
  binding whose action ran.
\<close>

record 'a dispatch =
  defaultPrevented :: bool
  ran :: "'a keyboardShortcut option"

definition handleKeyDown :: "bool \<Rightarrow> 'a keyboardShortcut list \<Rightarrow> keyboardEvent \<Rightarrow> 'a dispatch" where
  "handleKeyDown isEnabled shortcuts event =
     (if \<not> isEnabled then \<lparr> defaultPrevented = False, ran = None \<rparr>
      else if tagName (target event) = ''INPUT'' \<or> tagName (target event) = ''TEXTAREA''
              \<or> isContentEditable (target event)
      then \<lparr> defaultPrevented = False, ran = None \<rparr>
      else (case find (\<lambda>shortcut. shortcutMatches shortcut event) shortcuts of
              Some matchingShortcut \<Rightarrow> \<lparr> defaultPrevented = True, ran = Some matchingShortcut \<rparr>
            | None \<Rightarrow> \<lparr> defaultPrevented = False, ran = None \<rparr>))"

text \<open>The bindings that \<open>useKeyboardShortcuts\<close> registers, with their actions named.\<close>

datatype shortcutAction =
  NavigateHome | NavigateRequestForm | NavigateRequestHistory | SkipToMainContent
  | SubmitCurrentForm | ToggleShortcutsHelp

definition shortcuts :: "shortcutAction keyboardShortcut list" where
  "shortcuts =
     [\<lparr> key = ''1'', description = ''Go to Home page'', action = NavigateHome,
        ctrlKey = None, altKey = Some True, shiftKey = None \<rparr>,
      \<lparr> key = ''2'', description = ''Go to Request Form'', action = NavigateRequestForm,
        ctrlKey = None, altKey = Some True, shiftKey = None \<rparr>,
      \<lparr> key = ''3'', description = ''Go to Request History'', action = NavigateRequestHistory,
        ctrlKey = None, altKey = Some True, shiftKey = None \<rparr>,
      \<lparr> key = ''m'', description = ''Skip to main content'', action = SkipToMainContent,
        ctrlKey = None, altKey = Some True, shiftKey = None \<rparr>,
      \<lparr> key = ''s'', description = ''Submit current form (Ctrl+S)'', action = SubmitCurrentForm,
        ctrlKey = Some True, altKey = None, shiftKey = None \<rparr>,
      \<lparr> key = ''/'', description = ''Show keyboard shortcuts help'', action = ToggleShortcutsHelp,
        ctrlKey = None, altKey = None, shiftKey = None \<rparr>]"

text \<open>
  The matching rule in the words of the specification. Two keys are equal
  case-insensitively when their characters have the same codes once the codes 65 to 90 of
  the capital letters are moved to those of the small letters; a modifier is required
  exactly when the binding sets it to true.
\<close>

definition foldedCode :: "char \<Rightarrow> nat" where
  "foldedCode c = (let n = (of_char c :: nat) in if 65 \<le> n \<and> n \<le> 90 then n + 32 else n)"

definition equalIgnoringCase :: "string \<Rightarrow> string \<Rightarrow> bool" where
  "equalIgnoringCase s t \<longleftrightarrow> map foldedCode s = map foldedCode t"

definition bindingMatchesEvent :: "'a keyboardShortcut \<Rightarrow> keyboardEvent \<Rightarrow> bool" where
  "bindingMatchesEvent binding event \<longleftrightarrow>
     equalIgnoringCase (keyboardShortcut.key binding) (keyboardEvent.key event) \<and>
     (keyboardShortcut.ctrlKey binding = Some True) = keyboardEvent.ctrlKey event \<and>
     (keyboardShortcut.altKey binding = Some True) = keyboardEvent.altKey event \<and>
     (keyboardShortcut.shiftKey binding = Some True) = keyboardEvent.shiftKey event"

text \<open>
  The specification's invariant of a registry: the tuple (key, modifiers) of a binding is
  unique in it; keys are compared up to letter case.
\<close>

definition bindingTuple :: "'a keyboardShortcut \<Rightarrow> nat list \<times> bool \<times> bool \<times> bool" where
  "bindingTuple shortcut =
     (map foldedCode (keyboardShortcut.key shortcut),
      keyboardShortcut.ctrlKey shortcut = Some True,
      keyboardShortcut.altKey shortcut = Some True,
      keyboardShortcut.shiftKey shortcut = Some True)"

definition uniqueBindings :: "'a keyboardShortcut list \<Rightarrow> bool" where
  "uniqueBindings bindings \<longleftrightarrow> distinct (map bindingTuple bindings)"

text \<open>
  A text-input-capable control in the words of the specification: a multi-line text area,
  an element accepting free-form text, or an \<open>input\<close> whose type is not one of those that
  take no text.
\<close>

definition nonTextInputTypes :: "string list" where
  "nonTextInputTypes =
     [''button'', ''checkbox'', ''color'', ''file'', ''hidden'', ''image'', ''radio'',
      ''range'', ''reset'', ''submit'']"

definition textInputCapable :: "htmlElement \<Rightarrow> bool" where
  "textInputCapable el \<longleftrightarrow>
     tagName el = ''TEXTAREA'' \<or> isContentEditable el \<or>
     (tagName el = ''INPUT'' \<and> typeAttr el \<notin> set nonTextInputTypes)"

section \<open>Properties of the Contrast Evaluator\<close>

subsection \<open>Parsing\<close>

lemma hexRegexExec_Some_iff: "hexRegexExec s \<noteq> None \<longleftrightarrow> wellFormedColor s"
proof (cases s)
  case Nil
  then show ?thesis by (simp add: hexRegexExec_def wellFormedColor_def)
next
  case (Cons c cs)
  have nh: "\<not> isHexDigit CHR ''#''" by (simp add: isHexDigit_def)
  show ?thesis
  proof (cases "c = CHR ''#''")
    case True
    with Cons nh show ?thesis
      by (auto simp: hexRegexExec_def wellFormedColor_def Let_def)
  next
    case False
    with Cons show ?thesis
      by (auto simp: hexRegexExec_def wellFormedColor_def Let_def)
  qed
qed

lemma hexToRgb_Some_iff: "hexToRgb s \<noteq> None \<longleftrightarrow> wellFormedColor s"
  using hexRegexExec_Some_iff [of s] by (auto simp: hexToRgb_def split: option.splits)

lemma hexDigitValue_le: "hexDigitValue c \<le> 15"
  unfolding hexDigitValue_def Let_def by (simp split: if_splits) arith

lemma parseInt16_two: "length s = 2 \<Longrightarrow> parseInt16 s \<le> 255"
proof -
  assume "length s = 2"
  then obtain x y where "s = [x, y]"
    by (cases s; cases "tl s") auto
  then show ?thesis
    using hexDigitValue_le [of x] hexDigitValue_le [of y] by (simp add: parseInt16_def)
qed

lemma hexToRgb_range:
  assumes "hexToRgb s = Some c"
  shows "r c \<le> 255 \<and> g c \<le> 255 \<and> b c \<le> 255"
  using assms unfolding hexToRgb_def hexRegexExec_def
  by (auto simp: Let_def parseInt16_two split: option.splits if_splits list.splits)

lemma isHexDigit_lower_value:
  assumes "isHexDigit c"
  shows "isHexDigit (toLowerChar c) \<and> hexDigitValue (toLowerChar c) = hexDigitValue c"
proof -
  from assms have "c \<in> set ''0123456789abcdefABCDEF''"
    by (simp only: isHexDigit_def)
  then have cases: "c = CHR ''0'' \<or> c = CHR ''1'' \<or> c = CHR ''2'' \<or> c = CHR ''3'' \<or> c = CHR ''4''
      \<or> c = CHR ''5'' \<or> c = CHR ''6'' \<or> c = CHR ''7'' \<or> c = CHR ''8'' \<or> c = CHR ''9''
      \<or> c = CHR ''a'' \<or> c = CHR ''b'' \<or> c = CHR ''c'' \<or> c = CHR ''d'' \<or> c = CHR ''e''
      \<or> c = CHR ''f'' \<or> c = CHR ''A'' \<or> c = CHR ''B'' \<or> c = CHR ''C'' \<or> c = CHR ''D''
      \<or> c = CHR ''E'' \<or> c = CHR ''F''"
    by (simp only: set_simps insert_iff empty_iff) simp
  then show ?thesis
    by (elim disjE) (simp_all add: toLowerChar_def hexDigitValue_def isHexDigit_def)
qed

subsection \<open>Luminance and ratio bounds\<close>

lemma linearChannel_bounds:
  assumes "0 \<le> c" "c \<le> 255"
  shows "0 \<le> linearChannel c \<and> linearChannel c \<le> 1"
proof (cases "c / 255 \<le> 0.03928")
  case True
  then show ?thesis using assms by (simp add: linearChannel_def Let_def)
next
  case False
  have "0 \<le> (c / 255 + 0.055) / 1.055" using assms by simp
  moreover have "(c / 255 + 0.055) / 1.055 \<le> 1" using assms by simp
  ultimately have "((c / 255 + 0.055) / 1.055) powr 2.4 \<le> 1"
    by (intro powr_le1) simp_all
  with False show ?thesis by (simp add: linearChannel_def Let_def)
qed

lemma getLuminance_bounds:
  assumes "0 \<le> x" "x \<le> 255" "0 \<le> y" "y \<le> 255" "0 \<le> z" "z \<le> 255"
  shows "0 \<le> getLuminance x y z \<and> getLuminance x y z \<le> 1"
  using linearChannel_bounds [OF assms(1,2)] linearChannel_bounds [OF assms(3,4)]
    linearChannel_bounds [OF assms(5,6)]
  by (simp add: getLuminance_def)

lemma ratio_bounds:
  fixes l1 l2 :: real
  assumes "0 \<le> l1" "l1 \<le> 1" "0 \<le> l2" "l2 \<le> 1"
  shows "1 \<le> (max l1 l2 + 0.05) / (min l1 l2 + 0.05) \<and>
         (max l1 l2 + 0.05) / (min l1 l2 + 0.05) \<le> 21"
proof -
  have d: "0 < min l1 l2 + 0.05" using assms by simp
  have "min l1 l2 + 0.05 \<le> max l1 l2 + 0.05" by simp
  then have lo: "1 \<le> (max l1 l2 + 0.05) / (min l1 l2 + 0.05)"
    using d by (simp add: le_divide_eq)
  have "max l1 l2 + 0.05 \<le> 21 * (min l1 l2 + 0.05)" using assms by simp
  then have hi: "(max l1 l2 + 0.05) / (min l1 l2 + 0.05) \<le> 21"
    using d by (simp add: divide_le_eq)
  from lo hi show ?thesis ..
qed

text \<open>The exponent 2.4 is 12/5, so a bound on \<open>x powr 2.4\<close> is a comparison of powers.\<close>

lemma powr_2_4_le:
  fixes x a :: real
  assumes "0 < x" "0 \<le> a" "x ^ 12 \<le> a ^ 5"
  shows "x powr 2.4 \<le> a"
proof -
  have p: "0 < x powr 2.4" using assms(1) by simp
  have "(x powr 2.4) ^ 5 = (x powr 2.4) powr (real 5)"
    using powr_realpow [OF p, of 5] by simp
  also have "\<dots> = x powr 12" by (simp add: powr_powr)
  also have "\<dots> = x ^ 12" using assms(1) powr_realpow [of x 12] by simp
  finally have "(x powr 2.4) ^ Suc 4 \<le> a ^ Suc 4" using assms(3) by simp
  then show ?thesis using assms(2) by (rule power_le_imp_le_base)
qed

lemma powr_2_4_gt:
  fixes x a :: real
  assumes "0 < x" "0 \<le> a" "a ^ 5 < x ^ 12"
  shows "a < x powr 2.4"
proof -
  have p: "0 < x powr 2.4" using assms(1) by simp
  have "(x powr 2.4) ^ 5 = (x powr 2.4) powr (real 5)"
    using powr_realpow [OF p, of 5] by simp
  also have "\<dots> = x powr 12" by (simp add: powr_powr)
  also have "\<dots> = x ^ 12" using assms(1) powr_realpow [of x 12] by simp
  finally have "a ^ 5 < (x powr 2.4) ^ 5" using assms(3) by simp
  then show ?thesis by (rule power_less_imp_less_base) simp
qed

subsection \<open>The contrast ratio\<close>

lemma getContrastRatio_wf:
  assumes "wellFormedColor A" "wellFormedColor B"
  shows "\<exists>ratio0. getContrastRatio A B = Inr ratio0 \<and> 1 \<le> ratio0 \<and> ratio0 \<le> 21"
proof -
  from assms obtain ca cb where ca: "hexToRgb A = Some ca" and cb: "hexToRgb B = Some cb"
    using hexToRgb_Some_iff by blast
  let ?la = "getLuminance (real (r ca)) (real (g ca)) (real (b ca))"
  let ?lb = "getLuminance (real (r cb)) (real (g cb)) (real (b cb))"
  have la: "0 \<le> ?la \<and> ?la \<le> 1"
    using hexToRgb_range [OF ca] by (intro getLuminance_bounds) simp_all
  have lb: "0 \<le> ?lb \<and> ?lb \<le> 1"
    using hexToRgb_range [OF cb] by (intro getLuminance_bounds) simp_all
  have eq: "getContrastRatio A B = Inr ((max ?la ?lb + 0.05) / (min ?la ?lb + 0.05))"
    using ca cb by (simp add: getContrastRatio_def Let_def)
  from la lb have "1 \<le> (max ?la ?lb + 0.05) / (min ?la ?lb + 0.05) \<and>
         (max ?la ?lb + 0.05) / (min ?la ?lb + 0.05) \<le> 21"
    by (intro ratio_bounds) simp_all
  with eq show ?thesis by blast
qed

lemma getContrastRatio_commute: "getContrastRatio A B = getContrastRatio B A"
  by (simp add: getContrastRatio_def Let_def max.commute min.commute split: option.splits)

text \<open>
  Claim C8. For all well-formed colors \<open>A\<close> and \<open>B\<close>, \<open>getContrastRatio A B\<close> equals
  \<open>getContrastRatio B A\<close>, and the ratio returned lies in the closed interval from 1 to 21.
\<close>

theorem getContrastRatio_symmetric_bounded:
  assumes "wellFormedColor A" "wellFormedColor B"
  shows "getContrastRatio A B = getContrastRatio B A \<and>
         (\<exists>ratio0. getContrastRatio A B = Inr ratio0 \<and> 1 \<le> ratio0 \<and> ratio0 \<le> 21)"
  using getContrastRatio_commute [of A B] getContrastRatio_wf [OF assms] by simp

text \<open>The theorem at white against the primary color, one with \<open>#\<close> and one without.\<close>

theorem getContrastRatio_symmetric_bounded_witness:
  "wellFormedColor ''#FFFFFF'' \<and> wellFormedColor ''1c8282'' \<and>
   getContrastRatio ''#FFFFFF'' ''1c8282'' = getContrastRatio ''1c8282'' ''#FFFFFF'' \<and>
   (\<exists>ratio0. getContrastRatio ''#FFFFFF'' ''1c8282'' = Inr ratio0 \<and> 1 \<le> ratio0 \<and> ratio0 \<le> 21)"
proof -
  have wf1: "wellFormedColor ''#FFFFFF''" by (simp add: wellFormedColor_def isHexDigit_def)
  have wf2: "wellFormedColor ''1c8282''" by (simp add: wellFormedColor_def isHexDigit_def)
  show ?thesis using wf1 wf2 getContrastRatio_symmetric_bounded [OF wf1 wf2] by blast
qed

text \<open>
  Claim C9. \<open>getContrastRatio\<close> raises the invalid-format error exactly when at least one
  of its inputs is not a well-formed color; it returns a ratio exactly when both are, so a
  malformed input never gets a fallback ratio and a well-formed pair never raises.
\<close>

theorem getContrastRatio_error_iff:
  "(getContrastRatio color1 color2 = Inl InvalidHexColorFormat
      \<longleftrightarrow> \<not> wellFormedColor color1 \<or> \<not> wellFormedColor color2) \<and>
   ((\<exists>ratio0. getContrastRatio color1 color2 = Inr ratio0)
      \<longleftrightarrow> wellFormedColor color1 \<and> wellFormedColor color2)"
  using hexToRgb_Some_iff [of color1] hexToRgb_Some_iff [of color2]
  by (auto simp: getContrastRatio_def Let_def split: option.splits)

text \<open>The theorem at a three-digit shorthand, which the regular expression rejects.\<close>

theorem getContrastRatio_error_iff_witness:
  "\<not> wellFormedColor ''#FFF'' \<and> wellFormedColor ''#000000'' \<and>
   getContrastRatio ''#FFF'' ''#000000'' = Inl InvalidHexColorFormat \<and>
   \<not> (\<exists>ratio0. getContrastRatio ''#FFF'' ''#000000'' = Inr ratio0)"
proof -
  have bad: "\<not> wellFormedColor ''#FFF''" by (simp add: wellFormedColor_def isHexDigit_def)
  have good: "wellFormedColor ''#000000''" by (simp add: wellFormedColor_def isHexDigit_def)
  show ?thesis
    using bad good getContrastRatio_error_iff [of "''#FFF''" "''#000000''"] by simp
qed

subsection \<open>Spellings of a color\<close>

lemma parseInt16_lower:
  "list_all isHexDigit xs \<Longrightarrow> parseInt16 (map toLowerChar xs) = parseInt16 xs"
proof -
  have "list_all isHexDigit xs \<Longrightarrow>
        foldl (\<lambda>acc c. 16 * acc + hexDigitValue c) a (map toLowerChar xs) =
        foldl (\<lambda>acc c. 16 * acc + hexDigitValue c) a xs" for a
    by (induction xs arbitrary: a) (simp_all add: isHexDigit_lower_value)
  then show "list_all isHexDigit xs \<Longrightarrow> parseInt16 (map toLowerChar xs) = parseInt16 xs"
    by (simp add: parseInt16_def)
qed

lemma hexToRgb_stripHash:
  assumes "wellFormedColor s"
  shows "length (stripHash s) = 6 \<and> list_all isHexDigit (stripHash s) \<and>
         hexToRgb s = Some \<lparr> r = parseInt16 (take 2 (toLowerCase (stripHash s))),
                              g = parseInt16 (take 2 (drop 2 (toLowerCase (stripHash s)))),
                              b = parseInt16 (drop 4 (toLowerCase (stripHash s))) \<rparr>"
proof -
  let ?body = "stripHash s"
  have nh: "\<not> isHexDigit CHR ''#''" by (simp add: isHexDigit_def)
  from assms nh have body: "length ?body = 6 \<and> list_all isHexDigit ?body"
    by (cases s) (auto simp: wellFormedColor_def stripHash_def)
  then have ex: "hexRegexExec s = Some (take 2 ?body, take 2 (drop 2 ?body), drop 4 ?body)"
    by (simp add: hexRegexExec_def stripHash_def Let_def)
  have sub: "list_all isHexDigit (take 2 ?body)" "list_all isHexDigit (take 2 (drop 2 ?body))"
    "list_all isHexDigit (drop 4 ?body)"
    using body by (auto simp: list_all_iff dest: in_set_takeD in_set_dropD)
  have "parseInt16 (take 2 (toLowerCase ?body)) = parseInt16 (take 2 ?body)"
    "parseInt16 (take 2 (drop 2 (toLowerCase ?body))) = parseInt16 (take 2 (drop 2 ?body))"
    "parseInt16 (drop 4 (toLowerCase ?body)) = parseInt16 (drop 4 ?body)"
    using sub by (simp_all add: toLowerCase_def take_map drop_map parseInt16_lower)
  with ex body show ?thesis by (simp add: hexToRgb_def)
qed

lemma hexToRgb_sameColor:
  assumes "wellFormedColor s" "wellFormedColor t" "sameColor s t"
  shows "hexToRgb s = hexToRgb t"
  using hexToRgb_stripHash [OF assms(1)] hexToRgb_stripHash [OF assms(2)] assms(3)
  by (simp add: sameColor_def)

text \<open>
  Claim C10. \<open>getContrastRatio\<close> accepts a six-digit color with or without the leading
  \<open>#\<close> and with its letters in either case, and any two spellings of the same colors give
  the same result, which is a ratio.
\<close>

theorem getContrastRatio_spelling:
  assumes "wellFormedColor c1" "wellFormedColor c2"
    and "wellFormedColor d1" "wellFormedColor d2"
    and "sameColor c1 d1" "sameColor c2 d2"
  shows "getContrastRatio d1 d2 = getContrastRatio c1 c2 \<and>
         (\<exists>ratio0. getContrastRatio c1 c2 = Inr ratio0)"
proof -
  have "hexToRgb d1 = hexToRgb c1" "hexToRgb d2 = hexToRgb c2"
    using assms hexToRgb_sameColor by simp_all
  then have "getContrastRatio d1 d2 = getContrastRatio c1 c2"
    by (simp add: getContrastRatio_def)
  moreover have "\<exists>ratio0. getContrastRatio c1 c2 = Inr ratio0"
    using getContrastRatio_wf [OF assms(1,2)] by blast
  ultimately show ?thesis ..
qed

text \<open>The theorem at the claim's own example.\<close>

theorem getContrastRatio_spelling_witness:
  "wellFormedColor ''FFFFFF'' \<and> wellFormedColor ''000000'' \<and>
   wellFormedColor ''#ffffff'' \<and> wellFormedColor ''#000000'' \<and>
   sameColor ''FFFFFF'' ''#ffffff'' \<and> sameColor ''000000'' ''#000000'' \<and>
   getContrastRatio ''#ffffff'' ''#000000'' = getContrastRatio ''FFFFFF'' ''000000'' \<and>
   (\<exists>ratio0. getContrastRatio ''FFFFFF'' ''000000'' = Inr ratio0)"
proof -
  have wf: "wellFormedColor ''FFFFFF''" "wellFormedColor ''000000''"
    "wellFormedColor ''#ffffff''" "wellFormedColor ''#000000''"
    by (simp_all add: wellFormedColor_def isHexDigit_def)
  have same: "sameColor ''FFFFFF'' ''#ffffff''" "sameColor ''000000'' ''#000000''"
    by (simp_all add: sameColor_def stripHash_def toLowerCase_def toLowerChar_def)
  show ?thesis
    using wf same getContrastRatio_spelling [OF wf same] by blast
qed

subsection \<open>The WCAG level\<close>

text \<open>
  Claim C1, as amended. For well-formed colors, the level is \<open>AAA\<close> exactly when the
  unrounded ratio is at least 7 (normal text) or 4.5 (large text), \<open>AA\<close> exactly when it is
  at least the required ratio (4.5 normal, 3 large) and below that threshold, and \<open>Fail\<close>
  exactly when it is below the required ratio.
\<close>

theorem meetsWCAGAA_level:
  assumes "wellFormedColor fg" "wellFormedColor bg"
  shows "\<exists>ratio0 res. getContrastRatio fg bg = Inr ratio0 \<and>
           meetsWCAGAA fg bg isLargeText = Inr res \<and>
           (level res = AAA \<longleftrightarrow> ratio0 \<ge> (if isLargeText then 4.5 else 7)) \<and>
           (level res = AA \<longleftrightarrow> ratio0 \<ge> (if isLargeText then 3 else 4.5) \<and>
                                   ratio0 < (if isLargeText then 4.5 else 7)) \<and>
           (level res = Fail \<longleftrightarrow> ratio0 < (if isLargeText then 3 else 4.5))"
proof -
  from getContrastRatio_wf [OF assms] obtain ratio0
    where r0: "getContrastRatio fg bg = Inr ratio0" by blast
  show ?thesis
  proof (cases isLargeText)
    case True
    with r0 show ?thesis by (simp add: meetsWCAGAA_def Let_def)
  next
    case False
    with r0 show ?thesis by (simp add: meetsWCAGAA_def Let_def)
  qed
qed

text \<open>The theorem at white on black, normal text.\<close>

theorem meetsWCAGAA_level_witness:
  "wellFormedColor ''#FFFFFF'' \<and> wellFormedColor ''#000000'' \<and>
   (\<exists>ratio0 res. getContrastRatio ''#FFFFFF'' ''#000000'' = Inr ratio0 \<and>
      meetsWCAGAA ''#FFFFFF'' ''#000000'' False = Inr res \<and>
      (level res = AAA \<longleftrightarrow> ratio0 \<ge> (if False then 4.5 else 7)) \<and>
      (level res = AA \<longleftrightarrow> ratio0 \<ge> (if False then 3 else 4.5) \<and>
                              ratio0 < (if False then 4.5 else 7)) \<and>
      (level res = Fail \<longleftrightarrow> ratio0 < (if False then 3 else 4.5)))"
proof -
  have wf1: "wellFormedColor ''#FFFFFF''" by (simp add: wellFormedColor_def isHexDigit_def)
  have wf2: "wellFormedColor ''#000000''" by (simp add: wellFormedColor_def isHexDigit_def)
  show ?thesis
    using wf1 wf2 meetsWCAGAA_level [OF wf1 wf2, of False] by blast
qed

lemma hexToRgb_white: "hexToRgb ''#FFFFFF'' = Some \<lparr> r = 255, g = 255, b = 255 \<rparr>"
  by (simp add: hexToRgb_def hexRegexExec_def isHexDigit_def parseInt16_def hexDigitValue_def)

lemma hexToRgb_767676: "hexToRgb ''#767676'' = Some \<lparr> r = 118, g = 118, b = 118 \<rparr>"
  by (simp add: hexToRgb_def hexRegexExec_def isHexDigit_def parseInt16_def hexDigitValue_def)

lemma getLuminance_white: "getLuminance 255 255 255 = 1"
  by (simp add: getLuminance_def linearChannel_def)

lemma getLuminance_767676:
  "0.175 < getLuminance 118 118 118 \<and> getLuminance 118 118 118 \<le> 0.183"
proof -
  let ?x = "((118 / 255 + 0.055) / 1.055 :: real)"
  have lin: "linearChannel 118 = ?x powr 2.4"
    by (simp add: linearChannel_def)
  have lum: "getLuminance 118 118 118 = linearChannel 118"
    by (simp add: getLuminance_def)
  have lo: "0.175 < ?x powr 2.4"
    by (rule powr_2_4_gt) (simp_all add: field_simps)
  have hi: "?x powr 2.4 \<le> 0.183"
    by (rule powr_2_4_le) (simp_all add: field_simps)
  from lo hi show ?thesis by (simp only: lum lin)
qed

lemma getContrastRatio_767676:
  "getContrastRatio ''#767676'' ''#FFFFFF'' = Inr (1.05 / (getLuminance 118 118 118 + 0.05))"
  using getLuminance_767676
  by (simp add: getContrastRatio_def hexToRgb_white hexToRgb_767676 getLuminance_white Let_def
      max_def min_def)

text \<open>
  Claim C1 as stated fails. For large text the AA requirement is 3, and the gray
  \<open>#767676\<close> on white has a ratio of about 4.54: the code gives \<open>AAA\<close> (the threshold is
  4.5), although the ratio is below 1.556 times 3.
\<close>

theorem meetsWCAGAA_level_counterexample:
  "map_sum id level (meetsWCAGAA ''#767676'' ''#FFFFFF'' True) = Inr AAA \<and>
   map_sum id required (meetsWCAGAA ''#767676'' ''#FFFFFF'' True) = Inr 3 \<and>
   getContrastRatio ''#767676'' ''#FFFFFF'' = Inr (projr (getContrastRatio ''#767676'' ''#FFFFFF'')) \<and>
   projr (getContrastRatio ''#767676'' ''#FFFFFF'') < 1.556 * 3"
proof -
  let ?l = "getLuminance 118 118 118"
  have bnd: "0.175 < ?l" "?l \<le> 0.183" using getLuminance_767676 by simp_all
  have pos: "0 < ?l + 0.05" using bnd by simp
  have ge: "4.5 \<le> 1.05 / (?l + 0.05)"
    using bnd pos by (simp add: le_divide_eq)
  have lt: "1.05 / (?l + 0.05) < 1.556 * 3"
    using bnd pos by (simp add: divide_less_eq)
  show ?thesis
    using ge lt by (simp add: meetsWCAGAA_def getContrastRatio_767676 Let_def)
qed

section \<open>Properties of the Touch-Target Auditor\<close>

lemma natToString_44: "natToString 44 = ''44''"
  by (simp add: natToString.simps [of 44] natToString.simps [of 4] digitChar_def)

lemma natToString_43: "natToString 43 = ''43''"
  by (simp add: natToString.simps [of 43] natToString.simps [of 4] digitChar_def)

lemma natToString_30: "natToString 30 = ''30''"
  by (simp add: natToString.simps [of 30] natToString.simps [of 3] digitChar_def)

text \<open>
  Claim C5. \<open>validateTouchTarget\<close> returns \<open>isValid\<close> exactly when both the width and the
  height are at least 44 pixels. The axes are judged independently: each failing axis adds
  exactly one recommendation, which names the axis, the required 44 pixels and the current
  size (rounded to an integer). So 44 by 44 is compliant, and 43 by 44 is not, with the one
  recommendation about the width.
\<close>

theorem validateTouchTarget_axes:
  "(isValid (validateTouchTarget rect) \<longleftrightarrow> 44 \<le> width rect \<and> 44 \<le> height rect) \<and>
   recommendations (validateTouchTarget rect) =
     (if width rect < 44
      then [''Increase width to at least 44px (current: ''
            @ intToString (mathRound (width rect)) @ ''px)'']
      else []) @
     (if height rect < 44
      then [''Increase height to at least 44px (current: ''
            @ intToString (mathRound (height rect)) @ ''px)'']
      else []) \<and>
   length (recommendations (validateTouchTarget rect)) =
     (if width rect < 44 then 1 else 0) + (if height rect < 44 then 1 else 0) \<and>
   validateTouchTarget \<lparr> width = 44, height = 44 \<rparr> =
     \<lparr> isValid = True, actualSize = \<lparr> width = 44, height = 44 \<rparr>, recommendations = [] \<rparr> \<and>
   validateTouchTarget \<lparr> width = 43, height = 44 \<rparr> =
     \<lparr> isValid = False, actualSize = \<lparr> width = 43, height = 44 \<rparr>,
       recommendations = [''Increase width to at least 44px (current: 43px)''] \<rparr>"
proof -
  have gen: "recommendations (validateTouchTarget rect) =
     (if width rect < 44
      then [''Increase width to at least 44px (current: ''
            @ intToString (mathRound (width rect)) @ ''px)'']
      else []) @
     (if height rect < 44
      then [''Increase height to at least 44px (current: ''
            @ intToString (mathRound (height rect)) @ ''px)'']
      else [])"
    by (simp add: validateTouchTarget_def TOUCH_TARGET_MINIMUM_def Let_def natToString_44
        not_le)
  have valid: "isValid (validateTouchTarget rect) \<longleftrightarrow> 44 \<le> width rect \<and> 44 \<le> height rect"
    by (simp add: validateTouchTarget_def TOUCH_TARGET_MINIMUM_def Let_def)
  have len: "length (recommendations (validateTouchTarget rect)) =
     (if width rect < 44 then 1 else 0) + (if height rect < 44 then 1 else 0)"
    by (simp add: gen)
  have ok: "validateTouchTarget \<lparr> width = 44, height = 44 \<rparr> =
     \<lparr> isValid = True, actualSize = \<lparr> width = 44, height = 44 \<rparr>, recommendations = [] \<rparr>"
    by (simp add: validateTouchTarget_def TOUCH_TARGET_MINIMUM_def Let_def)
  have r43: "mathRound 43 = 43" by (simp add: mathRound_def)
  have bad: "validateTouchTarget \<lparr> width = 43, height = 44 \<rparr> =
     \<lparr> isValid = False, actualSize = \<lparr> width = 43, height = 44 \<rparr>,
       recommendations = [''Increase width to at least 44px (current: 43px)''] \<rparr>"
    by (simp add: validateTouchTarget_def TOUCH_TARGET_MINIMUM_def Let_def natToString_44
        natToString_43 r43 intToString_def)
  from valid gen len ok bad show ?thesis by blast
qed

text \<open>The theorem at an element of 50 by 29.5 pixels, which fails on the height only.\<close>

theorem validateTouchTarget_axes_witness:
  "\<not> isValid (validateTouchTarget \<lparr> width = 50, height = 29.5 \<rparr>) \<and>
   recommendations (validateTouchTarget \<lparr> width = 50, height = 29.5 \<rparr>) =
     [''Increase height to at least 44px (current: 30px)'']"
proof -
  let ?rect = "\<lparr> width = 50, height = 29.5 \<rparr>"
  have rnd: "mathRound (height ?rect) = 30" by (simp add: mathRound_def)
  have w: "\<not> width ?rect < 44" and h: "height ?rect < 44" by simp_all
  from validateTouchTarget_axes [of ?rect]
  have v: "isValid (validateTouchTarget ?rect) \<longleftrightarrow> 44 \<le> width ?rect \<and> 44 \<le> height ?rect"
    and recs: "recommendations (validateTouchTarget ?rect) =
     (if width ?rect < 44
      then [''Increase width to at least 44px (current: ''
            @ intToString (mathRound (width ?rect)) @ ''px)'']
      else []) @
     (if height ?rect < 44
      then [''Increase height to at least 44px (current: ''
            @ intToString (mathRound (height ?rect)) @ ''px)'']
      else [])"
    by blast+
  have "\<not> isValid (validateTouchTarget ?rect)" using v h by simp
  moreover have "recommendations (validateTouchTarget ?rect) =
     [''Increase height to at least 44px (current: 30px)'']"
    by (simp only: recs w h rnd if_True if_False) (simp add: intToString_def natToString_30)
  ultimately show ?thesis ..
qed

section \<open>Properties of the Focus-Trap Controller\<close>

lemma arrayIndex_first: "xs \<noteq> [] \<Longrightarrow> arrayIndex xs 0 = Element (hd xs)"
  by (cases xs) (simp_all add: arrayIndex_def)

lemma arrayIndex_last: "xs \<noteq> [] \<Longrightarrow> arrayIndex xs (int (length xs) - 1) = Element (last xs)"
proof -
  assume ne: "xs \<noteq> []"
  then have "nat (int (length xs) - 1) = length xs - 1" by simp
  moreover from ne have "0 \<le> int (length xs) - 1" by (cases xs) simp_all
  ultimately show ?thesis using ne by (simp add: arrayIndex_def last_conv_nth)
qed

lemma arrayIndex_empty: "arrayIndex [] i = Undefined"
  by (simp add: arrayIndex_def)

text \<open>
  What the trap does on a Tab event, for a non-empty focusable set: on the boundary in the
  direction of travel the default is suppressed and \<open>focus()\<close> is called on the opposite
  boundary element, which takes the focus only if it is neither disabled nor hidden.
\<close>

lemma trapFocus_tab:
  assumes "keyboardEvent.key event = ''Tab''" and "focusableElements \<noteq> []"
  shows "trapFocus focusableElements event activeElement =
           Inr (if keyboardEvent.shiftKey event
                then (if activeElement = Some (hd focusableElements)
                      then (if isDisabled (last focusableElements) \<or> isHidden (last focusableElements)
                            then activeElement else Some (last focusableElements), True)
                      else (activeElement, False))
                else (if activeElement = Some (last focusableElements)
                      then (if isDisabled (hd focusableElements) \<or> isHidden (hd focusableElements)
                            then activeElement else Some (hd focusableElements), True)
                      else (activeElement, False)))"
  using assms
  by (cases activeElement)
     (simp_all add: trapFocus_def Let_def arrayIndex_first arrayIndex_last focus_def)

text \<open>
  Claim C6. On the last element, Tab without shift is to move the focus to the first
  element of the focusable set. The code does so when the first element can take the focus
  (second equation). It fails to when that element is disabled: the selector still collects
  it, \<open>focus()\<close> on it does nothing, and the default is suppressed all the same, so the
  focus stays on the last element (first equation).
\<close>

theorem trapFocus_disabled_boundary:
  "trapFocus
     [\<lparr> elementId = ''A'', isDisabled = True, isHidden = False \<rparr>,
      \<lparr> elementId = ''B'', isDisabled = False, isHidden = False \<rparr>,
      \<lparr> elementId = ''C'', isDisabled = False, isHidden = False \<rparr>]
     \<lparr> keyboardEvent.key = ''Tab'', keyboardEvent.ctrlKey = False, keyboardEvent.altKey = False,
       keyboardEvent.shiftKey = False,
       target = \<lparr> tagName = ''BUTTON'', typeAttr = ''button'', isContentEditable = False \<rparr> \<rparr>
     (Some \<lparr> elementId = ''C'', isDisabled = False, isHidden = False \<rparr>)
   = Inr (Some \<lparr> elementId = ''C'', isDisabled = False, isHidden = False \<rparr>, True) \<and>
   trapFocus
     [\<lparr> elementId = ''A'', isDisabled = False, isHidden = False \<rparr>,
      \<lparr> elementId = ''B'', isDisabled = False, isHidden = False \<rparr>,
      \<lparr> elementId = ''C'', isDisabled = False, isHidden = False \<rparr>]
     \<lparr> keyboardEvent.key = ''Tab'', keyboardEvent.ctrlKey = False, keyboardEvent.altKey = False,
       keyboardEvent.shiftKey = False,
       target = \<lparr> tagName = ''BUTTON'', typeAttr = ''button'', isContentEditable = False \<rparr> \<rparr>
     (Some \<lparr> elementId = ''C'', isDisabled = False, isHidden = False \<rparr>)
   = Inr (Some \<lparr> elementId = ''A'', isDisabled = False, isHidden = False \<rparr>, True)"
  by (simp add: trapFocus_def Let_def arrayIndex_def focus_def)

text \<open>
  Claim C7. On a container with no focusable element the trap does nothing, for every
  event and whatever has the focus: the focus is unchanged, the default is not suppressed
  and nothing is thrown, since \<open>document.activeElement\<close> is never \<open>undefined\<close>.
\<close>

theorem trapFocus_empty:
  "trapFocus [] event activeElement = Inr (activeElement, False)"
  by (cases activeElement) (simp_all add: trapFocus_def Let_def arrayIndex_empty)

text \<open>The theorem at Shift+Tab with nothing focused.\<close>

theorem trapFocus_empty_witness:
  "trapFocus []
     \<lparr> keyboardEvent.key = ''Tab'', keyboardEvent.ctrlKey = False, keyboardEvent.altKey = False,
       keyboardEvent.shiftKey = True,
       target = \<lparr> tagName = ''DIV'', typeAttr = [], isContentEditable = False \<rparr> \<rparr>
     None = Inr (None, False)"
  by (rule trapFocus_empty)

section \<open>Properties of the Status Announcer\<close>

lemma announce_fields:
  "announcement (announce m p s) = m"
  "slotTrace (announce m p s) = slotTrace s @ [m]"
  "timers (announce m p s) = timers s @ [now s + clearDelay p]"
  "now (announce m p s) = now s"
  by (simp_all add: announce_def setTimeoutClear_def setAnnouncement_def)

text \<open>The announcer of the keyboard shortcuts is the same step, with the longer delay.\<close>

lemma announceShortcut_announce: "announceShortcut m s = announce m Assertive s"
  by (simp add: announceShortcut_def announce_def clearDelay_def)

lemma fold_setAnnouncement:
  "announcement (fold (\<lambda>_. setAnnouncement v) xs s) = (if xs = [] then announcement s else v)"
  by (induction xs arbitrary: s rule: rev_induct) (simp_all add: setAnnouncement_def)

lemma advance_no_fire:
  assumes "\<forall>due \<in> set (timers s). now s + d < due"
  shows "advance d s = s \<lparr> now := now s + d \<rparr>"
proof -
  have none: "filter (\<lambda>due. due \<le> now s + d) (timers s) = []"
    using assms by (auto simp: filter_empty_conv)
  have all: "filter (\<lambda>due. now s + d < due) (timers s) = timers s"
    using assms by (simp add: filter_id_conv)
  show ?thesis by (simp add: advance_def Let_def none all)
qed

lemma advance_announcement:
  "announcement (advance d s) =
     (if filter (\<lambda>due. due \<le> now s + d) (timers s) = [] then announcement s else [])"
  by (simp add: advance_def Let_def fold_setAnnouncement)

lemma slotChanges_repeat: "slotChanges (xs @ [y, y]) = slotChanges (xs @ [y])"
  by (induction xs rule: slotChanges.induct) simp_all

text \<open>
  Claim C2, as amended. When \<open>announce X\<close> is called again before the clear delay has
  elapsed (and no timer has fired in between), the second call writes \<open>X\<close> once and never
  the empty string: the slot stays at \<open>X\<close> and the trace of the slot gains no change.
\<close>

theorem announce_repeated_message:
  assumes "d < clearDelay p" and "\<forall>due \<in> set (timers s). now s + d < due"
  shows "announcement (advance d (announce X p s)) = X \<and>
         announcement (announce X q (advance d (announce X p s))) = X \<and>
         slotTrace (announce X q (advance d (announce X p s))) = slotTrace (announce X p s) @ [X] \<and>
         slotChanges (slotTrace (announce X q (advance d (announce X p s)))) =
           slotChanges (slotTrace (announce X p s))"
proof -
  have "\<forall>due \<in> set (timers (announce X p s)). now (announce X p s) + d < due"
    using assms by (simp add: announce_fields)
  then have adv: "advance d (announce X p s) = (announce X p s) \<lparr> now := now (announce X p s) + d \<rparr>"
    by (rule advance_no_fire)
  have tr: "slotTrace (announce X q (advance d (announce X p s))) = slotTrace s @ [X, X]"
    by (simp add: adv announce_fields)
  show ?thesis
    by (simp add: tr slotChanges_repeat) (simp add: adv announce_fields)
qed

text \<open>The theorem on a fresh announcer, the second call 500 ms after the first.\<close>

theorem announce_repeated_message_witness:
  "(500::nat) < clearDelay Polite \<and> timers initialAnnouncer = [] \<and>
   announcement (advance 500 (announce ''X'' Polite initialAnnouncer)) = ''X'' \<and>
   announcement (announce ''X'' Polite (advance 500 (announce ''X'' Polite initialAnnouncer))) = ''X'' \<and>
   slotTrace (announce ''X'' Polite (advance 500 (announce ''X'' Polite initialAnnouncer))) =
     slotTrace (announce ''X'' Polite initialAnnouncer) @ [''X''] \<and>
   slotChanges (slotTrace (announce ''X'' Polite (advance 500 (announce ''X'' Polite initialAnnouncer)))) =
     slotChanges (slotTrace (announce ''X'' Polite initialAnnouncer))"
proof -
  have h1: "(500::nat) < clearDelay Polite" by (simp add: clearDelay_def)
  have h2: "\<forall>due \<in> set (timers initialAnnouncer). now initialAnnouncer + 500 < due"
    by (simp add: initialAnnouncer_def)
  have h3: "timers initialAnnouncer = []" by (simp add: initialAnnouncer_def)
  show ?thesis
    using h1 h3 announce_repeated_message [OF h1 h2, of "''X''" Polite] by blast
qed

text \<open>
  Claim C2 as stated fails: after \<open>announce X\<close> twice within the delay the slot has taken
  the values empty, \<open>X\<close>, \<open>X\<close>. It changed once, and the second call wrote no empty string.
\<close>

theorem announce_repeated_message_counterexample:
  "announcement (announce ''X'' Polite initialAnnouncer) = ''X'' \<and>
   announcement (announce ''X'' Polite (advance 500 (announce ''X'' Polite initialAnnouncer))) = ''X'' \<and>
   slotTrace (announce ''X'' Polite (advance 500 (announce ''X'' Polite initialAnnouncer))) =
     [[], ''X'', ''X''] \<and>
   slotChanges (slotTrace (announce ''X'' Polite (advance 500 (announce ''X'' Polite initialAnnouncer)))) = 1"
  by (simp add: announce_def setTimeoutClear_def setAnnouncement_def advance_def
      initialAnnouncer_def clearDelay_def Let_def)

lemma announceShortcut_fields:
  "announcement (announceShortcut m s) = m"
  "timers (announceShortcut m s) = timers s @ [now s + 2000]"
  "now (announceShortcut m s) = now s"
  by (simp_all add: announceShortcut_def setTimeoutClear_def setAnnouncement_def)

lemma announce_holds_then_clears:
  assumes "\<forall>due \<in> set (timers s). now s + clearDelay p \<le> due"
  shows "(\<forall>d < clearDelay p. announcement (advance d (announce m p s)) = m) \<and>
         announcement (advance (clearDelay p) (announce m p s)) = []"
proof -
  have before: "announcement (advance d (announce m p s)) = m" if "d < clearDelay p" for d
  proof -
    have "\<forall>due \<in> set (timers (announce m p s)). now (announce m p s) + d < due"
      using assms that by (auto simp: announce_fields)
    then have "advance d (announce m p s) = (announce m p s) \<lparr> now := now (announce m p s) + d \<rparr>"
      by (rule advance_no_fire)
    then show ?thesis by (simp add: announce_fields)
  qed
  have at: "announcement (advance (clearDelay p) (announce m p s)) = []"
    by (simp add: advance_announcement announce_fields)
  show ?thesis using before at by simp
qed

lemma formAnnouncement_holds_then_clears:
  assumes "m \<noteq> []"
  shows "(\<forall>d < 3000. formSlot (formAdvance d (formAnnouncementEffect m f)) = m) \<and>
         formSlot (formAdvance 3000 (formAnnouncementEffect m f)) = []"
  using assms by (simp add: formAdvance_def formAnnouncementEffect_def Let_def)

text \<open>
  Claim C3, as amended. For \<open>announce\<close> of \<open>useScreenReaderAnnouncement\<close>: if no clear
  timer of an earlier announcement is due before the delay of this one has elapsed, and no
  further call intervenes, the slot holds the message throughout the delay and is cleared
  to the empty string exactly when it has elapsed, 1000 ms for a polite announcement and
  2000 ms for an assertive one. \<open>announceShortcut\<close> does the same with a delay of 2000 ms
  whatever the urgency, and \<open>FormAnnouncement\<close>, which cancels its earlier timer, holds a
  non-empty message for exactly 3000 ms whatever its type.
\<close>

theorem announce_clear_delay:
  "((\<forall>due \<in> set (timers s). now s + clearDelay p \<le> due) \<longrightarrow>
      (\<forall>d < clearDelay p. announcement (advance d (announce m p s)) = m) \<and>
      announcement (advance (clearDelay p) (announce m p s)) = []) \<and>
   clearDelay Polite = 1000 \<and> clearDelay Assertive = 2000 \<and>
   ((\<forall>due \<in> set (timers s). now s + 2000 \<le> due) \<longrightarrow>
      (\<forall>d < 2000. announcement (advance d (announceShortcut m s)) = m) \<and>
      announcement (advance 2000 (announceShortcut m s)) = []) \<and>
   (m \<noteq> [] \<longrightarrow>
      (\<forall>d < 3000. formSlot (formAdvance d (formAnnouncementEffect m f)) = m) \<and>
      formSlot (formAdvance 3000 (formAnnouncementEffect m f)) = [])"
proof -
  have hook: "(\<forall>due \<in> set (timers s). now s + clearDelay p \<le> due) \<longrightarrow>
      (\<forall>d < clearDelay p. announcement (advance d (announce m p s)) = m) \<and>
      announcement (advance (clearDelay p) (announce m p s)) = []"
    using announce_holds_then_clears [of s p m] by blast
  have delays: "clearDelay Polite = 1000 \<and> clearDelay Assertive = 2000"
    by (simp add: clearDelay_def)
  have shortcut: "(\<forall>due \<in> set (timers s). now s + 2000 \<le> due) \<longrightarrow>
      (\<forall>d < 2000. announcement (advance d (announceShortcut m s)) = m) \<and>
      announcement (advance 2000 (announceShortcut m s)) = []"
    using announce_holds_then_clears [of s Assertive m]
    by (simp add: announceShortcut_announce clearDelay_def)
  have form: "m \<noteq> [] \<longrightarrow>
      (\<forall>d < 3000. formSlot (formAdvance d (formAnnouncementEffect m f)) = m) \<and>
      formSlot (formAdvance 3000 (formAnnouncementEffect m f)) = []"
    using formAnnouncement_holds_then_clears [of m f] by blast
  from hook delays shortcut form show ?thesis by blast
qed

text \<open>The theorem on fresh announcers, just before and at each delay.\<close>

theorem announce_clear_delay_witness:
  "timers initialAnnouncer = [] \<and>
   announcement (advance 999 (announce ''Saved'' Polite initialAnnouncer)) = ''Saved'' \<and>
   announcement (advance 1000 (announce ''Saved'' Polite initialAnnouncer)) = [] \<and>
   announcement (advance 1999 (announceShortcut ''Saved'' initialAnnouncer)) = ''Saved'' \<and>
   announcement (advance 2000 (announceShortcut ''Saved'' initialAnnouncer)) = [] \<and>
   formSlot (formAdvance 2999 (formAnnouncementEffect ''Saved'' initialFormAnnouncement)) = ''Saved'' \<and>
   formSlot (formAdvance 3000 (formAnnouncementEffect ''Saved'' initialFormAnnouncement)) = []"
proof -
  have e: "timers initialAnnouncer = []" by (simp add: initialAnnouncer_def)
  have h1: "\<forall>due \<in> set (timers initialAnnouncer). now initialAnnouncer + clearDelay Polite \<le> due"
    by (simp add: e)
  have h2: "\<forall>due \<in> set (timers initialAnnouncer). now initialAnnouncer + 2000 \<le> due"
    by (simp add: e)
  have h3: "''Saved'' \<noteq> []" by simp
  have d: "clearDelay Polite = 1000" by (simp add: clearDelay_def)
  show ?thesis
    using e h1 h2 h3
      announce_clear_delay [of initialAnnouncer Polite "''Saved''" initialFormAnnouncement]
    by (simp add: d)
qed

text \<open>
  Claim C3 as stated fails. \<open>A\<close> is announced at 0 ms and \<open>B\<close> at 500 ms, both polite, and
  nothing is announced after \<open>B\<close>. The timer of \<open>A\<close> was not cancelled and fires at 1000 ms:
  \<open>B\<close> is still in the slot 499 ms after it was announced and is cleared after 500 ms, not
  after 1000 ms. Besides, the polite region of the shortcuts still holds its message after
  1000 ms, and \<open>FormAnnouncement\<close> still holds a polite message after 1000 ms and an
  assertive one after 2000 ms.
\<close>

theorem announce_clear_delay_counterexample:
  "announcement (advance 499 (announce ''B'' Polite (advance 500 (announce ''A'' Polite initialAnnouncer))))
     = ''B'' \<and>
   announcement (advance 500 (announce ''B'' Polite (advance 500 (announce ''A'' Polite initialAnnouncer))))
     = [] \<and>
   (500::nat) < clearDelay Polite \<and>
   shortcutAnnouncementLive = Polite \<and>
   announcement (advance 1000 (announceShortcut ''X'' initialAnnouncer)) = ''X'' \<and>
   formAnnouncementLive FormInfo = Polite \<and>
   formSlot (formAdvance 1000 (formAnnouncementEffect ''X'' initialFormAnnouncement)) = ''X'' \<and>
   formAnnouncementLive FormError = Assertive \<and>
   formSlot (formAdvance 2000 (formAnnouncementEffect ''X'' initialFormAnnouncement)) = ''X''"
  by (simp add: announce_def announceShortcut_def setTimeoutClear_def setAnnouncement_def
      advance_def initialAnnouncer_def clearDelay_def Let_def shortcutAnnouncementLive_def
      formAnnouncementLive_def formAdvance_def formAnnouncementEffect_def
      initialFormAnnouncement_def)

section \<open>Properties of the Keyboard-Shortcut Dispatcher\<close>

lemma truthy_iff: "truthy x \<longleftrightarrow> x = Some True"
  by (cases x) (simp_all add: truthy_def)

lemma capital_letter_iff:
  "c \<in> set ''ABCDEFGHIJKLMNOPQRSTUVWXYZ'' \<longleftrightarrow> 65 \<le> (of_char c :: nat) \<and> (of_char c :: nat) \<le> 90"
proof
  assume "c \<in> set ''ABCDEFGHIJKLMNOPQRSTUVWXYZ''"
  then have "c = CHR ''A'' \<or> c = CHR ''B'' \<or> c = CHR ''C'' \<or> c = CHR ''D'' \<or> c = CHR ''E''
      \<or> c = CHR ''F'' \<or> c = CHR ''G'' \<or> c = CHR ''H'' \<or> c = CHR ''I'' \<or> c = CHR ''J''
      \<or> c = CHR ''K'' \<or> c = CHR ''L'' \<or> c = CHR ''M'' \<or> c = CHR ''N'' \<or> c = CHR ''O''
      \<or> c = CHR ''P'' \<or> c = CHR ''Q'' \<or> c = CHR ''R'' \<or> c = CHR ''S'' \<or> c = CHR ''T''
      \<or> c = CHR ''U'' \<or> c = CHR ''V'' \<or> c = CHR ''W'' \<or> c = CHR ''X'' \<or> c = CHR ''Y''
      \<or> c = CHR ''Z''"
    by (simp only: set_simps insert_iff empty_iff) simp
  then show "65 \<le> (of_char c :: nat) \<and> (of_char c :: nat) \<le> 90"
    by (elim disjE) simp_all
next
  assume range: "65 \<le> (of_char c :: nat) \<and> (of_char c :: nat) \<le> 90"
  have "(of_char c :: nat) \<in> of_char ` set ''ABCDEFGHIJKLMNOPQRSTUVWXYZ''"
    using range by simp arith
  then obtain d where d: "d \<in> set ''ABCDEFGHIJKLMNOPQRSTUVWXYZ''" "(of_char c :: nat) = of_char d"
    by blast
  from d(2) have "c = d" by simp
  with d(1) show "c \<in> set ''ABCDEFGHIJKLMNOPQRSTUVWXYZ''" by simp
qed

lemma of_char_toLowerChar: "(of_char (toLowerChar c) :: nat) = foldedCode c"
proof (cases "c \<in> set ''ABCDEFGHIJKLMNOPQRSTUVWXYZ''")
  case True
  then have "c = CHR ''A'' \<or> c = CHR ''B'' \<or> c = CHR ''C'' \<or> c = CHR ''D'' \<or> c = CHR ''E''
      \<or> c = CHR ''F'' \<or> c = CHR ''G'' \<or> c = CHR ''H'' \<or> c = CHR ''I'' \<or> c = CHR ''J''
      \<or> c = CHR ''K'' \<or> c = CHR ''L'' \<or> c = CHR ''M'' \<or> c = CHR ''N'' \<or> c = CHR ''O''
      \<or> c = CHR ''P'' \<or> c = CHR ''Q'' \<or> c = CHR ''R'' \<or> c = CHR ''S'' \<or> c = CHR ''T''
      \<or> c = CHR ''U'' \<or> c = CHR ''V'' \<or> c = CHR ''W'' \<or> c = CHR ''X'' \<or> c = CHR ''Y''
      \<or> c = CHR ''Z''"
    by (simp only: set_simps insert_iff empty_iff) simp
  then show ?thesis
    by (elim disjE) (simp_all add: toLowerChar_def foldedCode_def)
next
  case False
  then have "map_of (zip ''ABCDEFGHIJKLMNOPQRSTUVWXYZ'' ''abcdefghijklmnopqrstuvwxyz'') c = None"
    by (simp add: map_of_eq_None_iff)
  then have same: "toLowerChar c = c" by (simp add: toLowerChar_def)
  from False have "\<not> (65 \<le> (of_char c :: nat) \<and> (of_char c :: nat) \<le> 90)"
    using capital_letter_iff [of c] by blast
  then show ?thesis by (auto simp: same foldedCode_def Let_def)
qed

lemma toLowerCase_eq_iff: "toLowerCase s = toLowerCase t \<longleftrightarrow> equalIgnoringCase s t"
proof -
  have inj: "inj (of_char :: char \<Rightarrow> nat)" by (simp add: inj_on_def)
  have fold: "map foldedCode u = map (of_char :: char \<Rightarrow> nat) (toLowerCase u)" for u
    by (simp add: toLowerCase_def of_char_toLowerChar)
  show ?thesis
    using inj_map_eq_map [OF inj, of "toLowerCase s" "toLowerCase t"]
    by (simp add: equalIgnoringCase_def fold)
qed

lemma shortcutMatches_iff: "shortcutMatches shortcut event \<longleftrightarrow> bindingMatchesEvent shortcut event"
  by (simp add: shortcutMatches_def bindingMatchesEvent_def truthy_iff toLowerCase_eq_iff)

lemma shortcutMatches_tuple:
  "shortcutMatches x event \<Longrightarrow> shortcutMatches y event \<Longrightarrow> bindingTuple x = bindingTuple y"
  by (simp add: shortcutMatches_iff bindingMatchesEvent_def equalIgnoringCase_def bindingTuple_def)

lemma find_unique:
  assumes "uniqueBindings bindings" "binding \<in> set bindings"
  shows "find (\<lambda>shortcut. shortcutMatches shortcut event) bindings = Some binding
           \<longleftrightarrow> shortcutMatches binding event"
proof
  assume "find (\<lambda>shortcut. shortcutMatches shortcut event) bindings = Some binding"
  then show "shortcutMatches binding event" by (auto simp: find_Some_iff)
next
  assume m: "shortcutMatches binding event"
  with assms(2) have "find (\<lambda>shortcut. shortcutMatches shortcut event) bindings \<noteq> None"
    by (auto simp: find_None_iff)
  then obtain x where x: "find (\<lambda>shortcut. shortcutMatches shortcut event) bindings = Some x"
    by blast
  then have "shortcutMatches x event" "x \<in> set bindings"
    by (auto simp: find_Some_iff)
  moreover from assms(1) have "inj_on bindingTuple (set bindings)"
    by (simp add: uniqueBindings_def distinct_map)
  ultimately have "x = binding"
    using m assms(2) shortcutMatches_tuple [of x event binding] by (auto dest: inj_onD)
  with x show "find (\<lambda>shortcut. shortcutMatches shortcut event) bindings = Some binding"
    by simp
qed

lemma textInputCapable_suppressed:
  "textInputCapable el \<Longrightarrow>
     tagName el = ''INPUT'' \<or> tagName el = ''TEXTAREA'' \<or> isContentEditable el"
  by (auto simp: textInputCapable_def)

text \<open>
  Claim C4, as amended. With the handler enabled and a registry whose (key, modifiers)
  tuples are unique: on a target that is an \<open>INPUT\<close> element of any type, a \<open>TEXTAREA\<close>
  or content-editable, nothing is dispatched, so in particular on every text-input-capable
  control; on any other target the action of a registered binding runs exactly when the
  key of the event equals the key of the binding up to letter case and each of ctrl, alt
  and shift is held exactly when the binding sets it (an absent modifier must not be held).
  The default is suppressed exactly when an action runs, and an event that no binding
  matches passes through.
\<close>

theorem handleKeyDown_dispatch:
  assumes "isEnabled" and "uniqueBindings bindings" and "binding \<in> set bindings"
  shows
    "(tagName (target event) = ''INPUT'' \<or> tagName (target event) = ''TEXTAREA''
        \<or> isContentEditable (target event)
      \<longrightarrow> handleKeyDown isEnabled bindings event = \<lparr> defaultPrevented = False, ran = None \<rparr>) \<and>
     (textInputCapable (target event)
      \<longrightarrow> handleKeyDown isEnabled bindings event = \<lparr> defaultPrevented = False, ran = None \<rparr>) \<and>
     (\<not> (tagName (target event) = ''INPUT'' \<or> tagName (target event) = ''TEXTAREA''
          \<or> isContentEditable (target event))
      \<longrightarrow> (ran (handleKeyDown isEnabled bindings event) = Some binding
             \<longleftrightarrow> bindingMatchesEvent binding event)) \<and>
     (defaultPrevented (handleKeyDown isEnabled bindings event)
        \<longleftrightarrow> ran (handleKeyDown isEnabled bindings event) \<noteq> None) \<and>
     ((\<forall>other \<in> set bindings. \<not> bindingMatchesEvent other event)
      \<longrightarrow> handleKeyDown isEnabled bindings event = \<lparr> defaultPrevented = False, ran = None \<rparr>)"
proof -
  let ?typing = "tagName (target event) = ''INPUT'' \<or> tagName (target event) = ''TEXTAREA''
        \<or> isContentEditable (target event)"
  let ?found = "find (\<lambda>shortcut. shortcutMatches shortcut event) bindings"
  have suppressed: "?typing \<longrightarrow>
      handleKeyDown isEnabled bindings event = \<lparr> defaultPrevented = False, ran = None \<rparr>"
    by (simp add: handleKeyDown_def)
  have capable: "textInputCapable (target event) \<longrightarrow>
      handleKeyDown isEnabled bindings event = \<lparr> defaultPrevented = False, ran = None \<rparr>"
    using suppressed textInputCapable_suppressed [of "target event"] by blast
  have ran_eq: "\<not> ?typing \<Longrightarrow> ran (handleKeyDown isEnabled bindings event) = ?found"
    using assms(1) by (simp add: handleKeyDown_def split: option.splits)
  have runs: "\<not> ?typing \<longrightarrow>
      (ran (handleKeyDown isEnabled bindings event) = Some binding
         \<longleftrightarrow> bindingMatchesEvent binding event)"
    using ran_eq find_unique [OF assms(2,3), of event] shortcutMatches_iff [of binding event]
    by simp
  have prevented: "defaultPrevented (handleKeyDown isEnabled bindings event)
        \<longleftrightarrow> ran (handleKeyDown isEnabled bindings event) \<noteq> None"
    by (simp add: handleKeyDown_def split: option.splits)
  have unmatched: "(\<forall>other \<in> set bindings. \<not> bindingMatchesEvent other event)
      \<longrightarrow> handleKeyDown isEnabled bindings event = \<lparr> defaultPrevented = False, ran = None \<rparr>"
  proof
    assume "\<forall>other \<in> set bindings. \<not> bindingMatchesEvent other event"
    then have "?found = None" by (simp add: find_None_iff shortcutMatches_iff)
    then show "handleKeyDown isEnabled bindings event = \<lparr> defaultPrevented = False, ran = None \<rparr>"
      by (simp add: handleKeyDown_def)
  qed
  from suppressed capable runs prevented unmatched show ?thesis by blast
qed

text \<open>
  The theorem on the registry of \<open>useKeyboardShortcuts\<close>, with the key \<open>M\<close> in capitals
  against the binding \<open>m\<close>: Alt+M runs it on a \<open>DIV\<close>, is suppressed on a text field, and
  Alt+Shift+M does not run it.
\<close>

theorem handleKeyDown_dispatch_witness:
  "uniqueBindings shortcuts \<and>
   \<lparr> key = ''m'', description = ''Skip to main content'', action = SkipToMainContent,
     ctrlKey = None, altKey = Some True, shiftKey = None \<rparr> \<in> set shortcuts \<and>
   ran (handleKeyDown True shortcuts
     \<lparr> keyboardEvent.key = ''M'', keyboardEvent.ctrlKey = False, keyboardEvent.altKey = True,
       keyboardEvent.shiftKey = False,
       target = \<lparr> tagName = ''DIV'', typeAttr = [], isContentEditable = False \<rparr> \<rparr>)
     = Some \<lparr> key = ''m'', description = ''Skip to main content'', action = SkipToMainContent,
              ctrlKey = None, altKey = Some True, shiftKey = None \<rparr> \<and>
   handleKeyDown True shortcuts
     \<lparr> keyboardEvent.key = ''M'', keyboardEvent.ctrlKey = False, keyboardEvent.altKey = True,
       keyboardEvent.shiftKey = False,
       target = \<lparr> tagName = ''INPUT'', typeAttr = ''text'', isContentEditable = False \<rparr> \<rparr>
     = \<lparr> defaultPrevented = False, ran = None \<rparr> \<and>
   ran (handleKeyDown True shortcuts
     \<lparr> keyboardEvent.key = ''M'', keyboardEvent.ctrlKey = False, keyboardEvent.altKey = True,
       keyboardEvent.shiftKey = True,
       target = \<lparr> tagName = ''DIV'', typeAttr = [], isContentEditable = False \<rparr> \<rparr>)
     \<noteq> Some \<lparr> key = ''m'', description = ''Skip to main content'', action = SkipToMainContent,
              ctrlKey = None, altKey = Some True, shiftKey = None \<rparr>"
proof -
  let ?skip = "\<lparr> key = ''m'', description = ''Skip to main content'', action = SkipToMainContent,
     ctrlKey = None, altKey = Some True, shiftKey = None \<rparr>"
  have en: "True" ..
  have uniq: "uniqueBindings shortcuts"
    by (simp add: uniqueBindings_def shortcuts_def bindingTuple_def foldedCode_def)
  have mem: "?skip \<in> set shortcuts"
    by (simp add: shortcuts_def)
  have fold: "foldedCode CHR ''m'' = foldedCode CHR ''M''"
    by (simp add: foldedCode_def)
  show ?thesis
    using uniq mem
      handleKeyDown_dispatch [OF en uniq mem, of
        "\<lparr> keyboardEvent.key = ''M'', keyboardEvent.ctrlKey = False, keyboardEvent.altKey = True,
           keyboardEvent.shiftKey = False,
           target = \<lparr> tagName = ''DIV'', typeAttr = [], isContentEditable = False \<rparr> \<rparr>"]
      handleKeyDown_dispatch [OF en uniq mem, of
        "\<lparr> keyboardEvent.key = ''M'', keyboardEvent.ctrlKey = False, keyboardEvent.altKey = True,
           keyboardEvent.shiftKey = False,
           target = \<lparr> tagName = ''INPUT'', typeAttr = ''text'', isContentEditable = False \<rparr> \<rparr>"]
      handleKeyDown_dispatch [OF en uniq mem, of
        "\<lparr> keyboardEvent.key = ''M'', keyboardEvent.ctrlKey = False, keyboardEvent.altKey = True,
           keyboardEvent.shiftKey = True,
           target = \<lparr> tagName = ''DIV'', typeAttr = [], isContentEditable = False \<rparr> \<rparr>"]
    by (simp add: bindingMatchesEvent_def equalIgnoringCase_def fold)
qed

text \<open>
  Claim C4 as stated fails. A file input is no text-input-capable control, and Alt+1 on it
  matches the first binding in key and modifiers; yet nothing is dispatched, because the
  handler skips every \<open>INPUT\<close> element.
\<close>

theorem handleKeyDown_dispatch_counterexample:
  "\<not> textInputCapable \<lparr> tagName = ''INPUT'', typeAttr = ''file'', isContentEditable = False \<rparr> \<and>
   \<lparr> key = ''1'', description = ''Go to Home page'', action = NavigateHome,
     ctrlKey = None, altKey = Some True, shiftKey = None \<rparr> \<in> set shortcuts \<and>
   bindingMatchesEvent
     \<lparr> key = ''1'', description = ''Go to Home page'', action = NavigateHome,
       ctrlKey = None, altKey = Some True, shiftKey = None \<rparr>
     \<lparr> keyboardEvent.key = ''1'', keyboardEvent.ctrlKey = False, keyboardEvent.altKey = True,
       keyboardEvent.shiftKey = False,
       target = \<lparr> tagName = ''INPUT'', typeAttr = ''file'', isContentEditable = False \<rparr> \<rparr> \<and>
   handleKeyDown True shortcuts
     \<lparr> keyboardEvent.key = ''1'', keyboardEvent.ctrlKey = False, keyboardEvent.altKey = True,
       keyboardEvent.shiftKey = False,
       target = \<lparr> tagName = ''INPUT'', typeAttr = ''file'', isContentEditable = False \<rparr> \<rparr>
     = \<lparr> defaultPrevented = False, ran = None \<rparr>"
  by (simp add: textInputCapable_def nonTextInputTypes_def shortcuts_def bindingMatchesEvent_def
      equalIgnoringCase_def handleKeyDown_def)

end
